theory Spec2Isabelle
  imports Complex_Main
begin

section \<open>Python primitives used by the bot\<close>

text \<open>
  Strings are byte lists; a character outside ASCII appears as its UTF-8 bytes.
  The readings of \<open>time.time()\<close> and the expiry of the credential are real numbers;
  timestamps of the remote API and the result of \<open>int(...)\<close> are integers. Exceptions
  of pure expressions are values of \<open>error\<close>; a procedure that mutates the bot before
  it raises returns an \<open>outcome\<close> together with the state reached at that point.
\<close>

datatype error = IndexError | ValueError | TimeFormatError

datatype outcome = Returned | Raised

text \<open>Truthiness of an optional string (\<open>if self.access_token\<close>, \<open>not access_token\<close>).\<close>

definition truthy :: "string option \<Rightarrow> bool" where
  "truthy v = (case v of None \<Rightarrow> False | Some t \<Rightarrow> t \<noteq> [])"


definition digit_char :: "nat \<Rightarrow> char" where
  "digit_char d = ''0123456789'' ! d"

fun str_nat :: "nat \<Rightarrow> string" where
  "str_nat n = (if n < 10 then [digit_char n] else str_nat (n div 10) @ [digit_char (n mod 10)])"

declare str_nat.simps [simp del]

text \<open>\<open>str(i)\<close> for a Python integer.\<close>

definition str_int :: "int \<Rightarrow> string" where
  "str_int i = (if i < 0 then CHR ''-'' # str_nat (nat (- i)) else str_nat (nat i))"

definition digit_val :: "char \<Rightarrow> nat option" where
  "digit_val =
     map_of [(CHR ''0'', 0), (CHR ''1'', 1), (CHR ''2'', 2), (CHR ''3'', 3), (CHR ''4'', 4),
             (CHR ''5'', 5), (CHR ''6'', 6), (CHR ''7'', 7), (CHR ''8'', 8), (CHR ''9'', 9)]"

text \<open>
  The characters that \<open>int()\<close> skips at both ends of an ASCII argument: tab, line
  feed, vertical tab, form feed, carriage return and space.
\<close>

definition is_space :: "char \<Rightarrow> bool" where
  "is_space c =
     (c = CHR 0x09 \<or> c = CHR 0x0A \<or> c = CHR 0x0B \<or> c = CHR 0x0C \<or> c = CHR 0x0D \<or>
      c = CHR 0x20)"

definition is_ascii :: "char \<Rightarrow> bool" where
  "is_ascii c = (of_char c < (128 :: nat))"

definition strip :: "string \<Rightarrow> string" where
  "strip t = rev (dropWhile is_space (rev (dropWhile is_space t)))"

text \<open>
  The digits of an integer literal: decimal digits, where a single underscore may stand
  between two digits.
\<close>

fun parse_digits :: "string \<Rightarrow> nat \<Rightarrow> nat option" where
  "parse_digits [] acc = Some acc"
| "parse_digits (c # cs) acc =
     (if c = CHR ''_'' then
        (case cs of
           [] \<Rightarrow> None
         | d # _ \<Rightarrow> if digit_val d = None then None else parse_digits cs acc)
      else
        (case digit_val c of
           None \<Rightarrow> None
         | Some v \<Rightarrow> parse_digits cs (10 * acc + v)))"

definition parse_nat :: "string \<Rightarrow> nat option" where
  "parse_nat t =
     (case t of
        [] \<Rightarrow> None
      | c # _ \<Rightarrow> if digit_val c = None then None else parse_digits t 0)"

text \<open>\<open>int(t)\<close> for an ASCII string \<open>t\<close>; \<open>None\<close> stands for the ValueError.\<close>

definition int_ascii :: "string \<Rightarrow> int option" where
  "int_ascii t =
     (case strip t of
        [] \<Rightarrow> None
      | c # cs \<Rightarrow>
          if c = CHR ''-'' then map_option (\<lambda>n. - int n) (parse_nat cs)
          else if c = CHR ''+'' then map_option int (parse_nat cs)
          else map_option int (parse_nat (c # cs)))"

text \<open>
  \<open>int(t)\<close> for any string. On a text with a character outside ASCII Python consults
  its Unicode tables (decimal digits and spaces of other scripts); what it answers there
  is the parameter \<open>non_ascii\<close>.
\<close>

definition py_int :: "(string \<Rightarrow> int option) \<Rightarrow> string \<Rightarrow> int option" where
  "py_int non_ascii t = (if list_all is_ascii t then int_ascii t else non_ascii t)"

text \<open>\<open>int(x)\<close> for a float \<open>x\<close>: truncation towards zero.\<close>

definition py_trunc :: "real \<Rightarrow> int" where
  "py_trunc x = (if x < 0 then - \<lfloor>- x\<rfloor> else \<lfloor>x\<rfloor>)"

text \<open>\<open>t.split(sep)\<close> for a one-character separator.\<close>

fun split_sep :: "char \<Rightarrow> string \<Rightarrow> string list" where
  "split_sep sep [] = [[]]"
| "split_sep sep (c # cs) =
     (if c = sep then [] # split_sep sep cs
      else (case split_sep sep cs of
              [] \<Rightarrow> [[c]]
            | w # ws \<Rightarrow> (c # w) # ws))"

text \<open>\<open>sep.join(xs)\<close>.\<close>

fun join :: "string \<Rightarrow> string list \<Rightarrow> string" where
  "join sep [] = []"
| "join sep [x] = x"
| "join sep (x # y # ys) = x @ sep @ join sep (y # ys)"

text \<open>\<open>int(time_until_expiry / 3600)\<close>.\<close>

definition hours_of :: "real \<Rightarrow> int" where
  "hours_of d = py_trunc (d / 3600)"


section \<open>Data\<close>

text \<open>
  The payloads of the remote API, typed as the code reads them. In a reserve a key read
  by subscript is a field, and \<open>in_stock\<close> is a list whose first element is read. In
  an answer a key read by \<open>get\<close> or tested by \<open>in\<close> is optional, and so are the keys of
  the new credential, which the code reads one after the other while it assigns.
\<close>

text \<open>
  A JSON number as the f-string renders it: an integer, or a float given by its \<open>repr\<close>.
\<close>

datatype number = IntNumber int | FloatNumber string

definition str_number :: "number \<Rightarrow> string" where
  "str_number v = (case v of IntNumber i \<Rightarrow> str_int i | FloatNumber r \<Rightarrow> r)"

record bonus =
  bonus_value :: number
  battle_type :: string

record stock_info =
  status :: string
  activated_at :: int
  active_till :: int
  level :: int
  bonus_values :: "bonus list"

record reserve =
  name :: string
  in_stock :: "stock_info list"

text \<open>
  The answer to the reserves request: \<open>requests.get\<close> raised; or \<open>response.json()\<close>
  raised or gave a value on which the test \<open>"data" in data\<close> or the subscript raises; or
  a JSON object, with the HTTP status and the list under \<open>data\<close>, if any.
\<close>

datatype snapshot_response =
    SnapshotRequestFailed
  | SnapshotNotJson nat
  | SnapshotJson nat "reserve list option"

text \<open>
  The object under \<open>data\<close> in the answer to the prolongation request. Each of the three
  keys that the code reads may be missing.
\<close>

record refresh_data =
  new_access_token :: "string option"
  new_refresh_token :: "string option"
  lifetime :: "real option"

text \<open>
  The answer to the prolongation request: \<open>requests.post\<close>, \<open>response.json()\<close> or
  \<open>data.get\<close> raised, or a JSON object with the values under \<open>status\<close> and \<open>data\<close>,
  if any.
\<close>

datatype refresh_response =
    RefreshRequestFailed
  | RefreshJson "string option" "refresh_data option"

text \<open>The three direct messages to the admin user, by their arguments.\<close>

datatype admin_message =
    ExpiryWarning int string
  | NeedsReauthorization string
  | Authorized string

text \<open>
  What \<open>send_admin_message\<close> meets: the message is sent, \<open>fetch_user\<close> yields
  nothing, or one of the two calls raises.
\<close>

datatype dm_result = Delivered | NoAdminUser | DeliveryFailed

text \<open>The calls of the logger, one constructor for each call site.\<close>

datatype log_record =
    SavedTokens
  | ErrorSavingTokens
  | ErrorRefreshingToken
  | SavedReservesState
  | ErrorSavingReserves
  | CleanedUp nat
  | SentAdminMessage
  | FailedAdminMessage
  | AuthorizeUrl string
  | CallbackParams
  | InvalidCallback
  | CallbackSavedTokens
  | ErrorProcessingCallback
  | CycleError

text \<open>
  The calls that leave the core, in the order they happen: \<open>save_tokens\<close> and
  \<open>save_reserves_state\<close> setting out to write their file with the given content,
  \<open>send_admin_message\<close> called with a message, \<open>channel.send\<close> called with a text, and
  the logger. How a call ends shows in the log record that follows it.
\<close>

datatype event =
    WriteTokens "string option" "string option" "real option"
  | WriteReserves "string set"
  | NotifyAdmin admin_message
  | ChannelSend string
  | Log log_record

text \<open>The fields of \<open>WargamingAuth\<close> and \<open>DiscordBot\<close> that the core mutates.\<close>

record state =
  access_token :: "string option"
  refresh_token :: "string option"
  expires_at :: "real option"
  last_active_reserves :: "string set"
  trace :: "event list"

text \<open>
  Configuration and library functions: the application id, the redirect URI,
  \<open>requests.utils.quote\<close>, the rendering of a timestamp in the configured time zone
  (\<open>pytz.timezone\<close>, \<open>fromtimestamp\<close>, \<open>astimezone\<close>, \<open>strftime\<close>; \<open>None\<close> when one
  of them raises), and \<open>int()\<close> on a text with a character outside ASCII.
\<close>

record config =
  application_id :: string
  redirect_uri :: string
  quote :: "string \<Rightarrow> string"
  format_local_time :: "int \<Rightarrow> string option"
  int_non_ascii :: "string \<Rightarrow> int option"

text \<open>
  What the environment answers during one run of the poll cycle or of the callback
  handler: the readings of \<open>time.time()\<close> at each call site, the two remote endpoints as
  functions of the token sent, whether a write of a file succeeds, the fate of each admin
  message, the channel lookup, and whether \<open>channel.send\<close> returns.
\<close>

record env =
  now_expiry_check :: real
  now_token_check :: real
  now_refresh :: real
  now_cleanup :: real
  now_callback :: real
  prolongate :: "string option \<Rightarrow> refresh_response"
  clanreserves :: "string \<Rightarrow> snapshot_response"
  write_ok :: "event \<Rightarrow> bool"
  dm_outcome :: "admin_message \<Rightarrow> dm_result"
  channel_found :: bool
  channel_send_ok :: bool




section \<open>Operations\<close>

definition emit :: "event list \<Rightarrow> state \<Rightarrow> state" where
  "emit es s = s\<lparr>trace := trace s @ es\<rparr>"

subsection \<open>WargamingAuth\<close>

definition save_tokens :: "env \<Rightarrow> state \<Rightarrow> state" where
  "save_tokens e s =
     (let w = WriteTokens (access_token s) (refresh_token s) (expires_at s) in
      emit [w, Log (if write_ok e w then SavedTokens else ErrorSavingTokens)] s)"


definition token_fresh :: "env \<Rightarrow> state \<Rightarrow> bool" where
  "token_fresh e s =
     (truthy (access_token s) \<and>
      (case expires_at s of
         None \<Rightarrow> False
       | Some t \<Rightarrow> t \<noteq> 0 \<and> now_token_check e < t - 300))"


subsection \<open>DiscordBot\<close>

definition save_reserves_state :: "env \<Rightarrow> state \<Rightarrow> state" where
  "save_reserves_state e s =
     (let w = WriteReserves (last_active_reserves s) in
      emit [w, Log (if write_ok e w then SavedReservesState else ErrorSavingReserves)] s)"

definition reserve_id :: "string \<Rightarrow> int \<Rightarrow> string" where
  "reserve_id nm t = nm @ ''_'' @ str_int t"

text \<open>\<open>int(reserve_id.split('_')[1])\<close>.\<close>

definition id_timestamp :: "config \<Rightarrow> string \<Rightarrow> error + int" where
  "id_timestamp cfg rid =
     (case split_sep CHR ''_'' rid of
        _ # seg # _ \<Rightarrow>
          (case py_int (int_non_ascii cfg) seg of
             None \<Rightarrow> Inl ValueError
           | Some n \<Rightarrow> Inr n)
      | _ \<Rightarrow> Inl IndexError)"

definition id_expired :: "config \<Rightarrow> int \<Rightarrow> string \<Rightarrow> bool" where
  "id_expired cfg current_time rid =
     (case id_timestamp cfg rid of Inl _ \<Rightarrow> False | Inr n \<Rightarrow> n < current_time - 7200)"

text \<open>
  The set comprehension raises as soon as one id of the set does; nothing has been
  assigned by then.
\<close>

definition cleanup_expired_reserves ::
  "config \<Rightarrow> env \<Rightarrow> state \<Rightarrow> int \<Rightarrow> outcome \<times> state" where
  "cleanup_expired_reserves cfg e s current_time =
     (if \<exists>rid \<in> last_active_reserves s. isl (id_timestamp cfg rid) then (Raised, s)
      else
        let expired = Set.filter (id_expired cfg current_time) (last_active_reserves s) in
        if expired \<noteq> {} then
          (Returned,
           emit [Log (CleanedUp (card expired))]
             (save_reserves_state e
                (s\<lparr>last_active_reserves := last_active_reserves s - expired\<rparr>)))
        else (Returned, s))"

definition send_admin_message :: "env \<Rightarrow> admin_message \<Rightarrow> state \<Rightarrow> state" where
  "send_admin_message e m s =
     (case dm_outcome e m of
        Delivered \<Rightarrow> emit [NotifyAdmin m, Log SentAdminMessage] s
      | NoAdminUser \<Rightarrow> emit [NotifyAdmin m] s
      | DeliveryFailed \<Rightarrow> emit [NotifyAdmin m, Log FailedAdminMessage] s)"

definition auth_params :: "config \<Rightarrow> (string \<times> string) list" where
  "auth_params cfg =
     [(''application_id'', application_id cfg),
      (''redirect_uri'', redirect_uri cfg),
      (''display'', ''page''),
      (''nofollow'', ''0''),
      (''expires_at'', ''1736027938''),
      (''response_type'', ''code token'')]"

definition full_auth_url :: "config \<Rightarrow> string" where
  "full_auth_url cfg =
     ''https://api.worldoftanks.eu/wot/auth/login/'' @ ''?'' @
     join ''&'' (map (\<lambda>(k, v). k @ ''='' @ quote cfg v) (auth_params cfg))"

definition start_oauth_flow :: "config \<Rightarrow> state \<Rightarrow> string \<times> state" where
  "start_oauth_flow cfg s = (full_auth_url cfg, emit [Log (AuthorizeUrl (full_auth_url cfg))] s)"

text \<open>The text of one announced reserve, given the rendered \<open>active_till\<close>.\<close>

definition bonus_text :: "bonus \<Rightarrow> string" where
  "bonus_text b = str_number (bonus_value b) @ ''x for '' @ battle_type b"

definition bullet :: string where
  "bullet = [CHR 0xE2, CHR 0x80, CHR 0xA2]"

definition reserve_info :: "string \<Rightarrow> stock_info \<Rightarrow> string \<Rightarrow> string" where
  "reserve_info nm si till =
     ''**'' @ nm @ ''** (Level '' @ str_int (level si) @ '')'' @ [CHR 0x0A] @
     bullet @ '' '' @ join '', '' (map bonus_text (bonus_values si)) @ [CHR 0x0A] @
     bullet @ '' Active until: '' @ till"

text \<open>
  The loop over the snapshot, with its two accumulators \<open>current_active\<close> and
  \<open>newly_activated\<close>; \<open>announced\<close> is \<open>self.last_active_reserves\<close>, which the loop only
  reads. It raises at an entry with an empty \<open>in_stock\<close>, and at a new active entry
  whose \<open>active_till\<close> cannot be rendered.
\<close>

fun scan_reserves ::
  "config \<Rightarrow> string set \<Rightarrow> reserve list \<Rightarrow> string set \<times> string list \<Rightarrow>
   error + (string set \<times> string list)" where
  "scan_reserves cfg announced [] acc = Inr acc"
| "scan_reserves cfg announced (r # rs) (current_active, newly_activated) =
     (case in_stock r of
        [] \<Rightarrow> Inl IndexError
      | si # _ \<Rightarrow>
          if status si = ''active'' then
            (let rid = reserve_id (name r) (activated_at si) in
             if rid \<notin> announced then
               (case format_local_time cfg (active_till si) of
                  None \<Rightarrow> Inl TimeFormatError
                | Some till \<Rightarrow>
                    scan_reserves cfg announced rs
                      (insert rid current_active,
                       newly_activated @ [reserve_info (name r) si till]))
             else scan_reserves cfg announced rs (insert rid current_active, newly_activated))
          else scan_reserves cfg announced rs (current_active, newly_activated))"

definition announcement :: "string list \<Rightarrow> string" where
  "announcement newly_activated =
     ''**BONARIT ON P'' @ [CHR 0xC3, CHR 0x84, CHR 0xC3, CHR 0x84] @ ''LL'' @
     [CHR 0xC3, CHR 0x84] @ '', NYT KAIKKI PELAAMAAN:**'' @ [CHR 0x0A, CHR 0x0A] @
     join [CHR 0x0A, CHR 0x0A] newly_activated"

text \<open>The warning sent while the token expires within a day.\<close>

definition expiry_warning :: "config \<Rightarrow> env \<Rightarrow> state \<Rightarrow> state" where
  "expiry_warning cfg e s =
     (case expires_at s of
        None \<Rightarrow> s
      | Some t \<Rightarrow>
          if t = 0 then s
          else
            let time_until_expiry = t - now_expiry_check e in
            if time_until_expiry < 86400 then
              (let (url, s1) = start_oauth_flow cfg s in
               send_admin_message e (ExpiryWarning (hours_of time_until_expiry) url) s1)
            else s)"


definition announce :: "env \<Rightarrow> string list \<Rightarrow> state \<Rightarrow> outcome \<times> state" where
  "announce e newly_activated s =
     (if newly_activated \<noteq> [] then
        (if channel_found e then
           (if channel_send_ok e then Returned else Raised,
            emit [ChannelSend (announcement newly_activated)] s)
         else (Returned, s))
      else (Returned, s))"







section \<open>The vocabulary of the specification\<close>

text \<open>
  A snapshot entry of the specification is a reserve together with the first element of
  its \<open>in_stock\<close> list: its status, its id and its announcement text.
\<close>

definition entry_status :: "reserve \<Rightarrow> string" where
  "entry_status r = status (hd (in_stock r))"

definition entry_id :: "reserve \<Rightarrow> string" where
  "entry_id r = reserve_id (name r) (activated_at (hd (in_stock r)))"

definition entry_text :: "(reserve \<Rightarrow> string) \<Rightarrow> reserve \<Rightarrow> string" where
  "entry_text till r = reserve_info (name r) (hd (in_stock r)) (till r)"

definition is_new :: "string set \<Rightarrow> reserve \<Rightarrow> bool" where
  "is_new prev r = (entry_status r = ''active'' \<and> entry_id r \<notin> prev)"

text \<open>The decimal digits.\<close>

definition is_digit :: "char \<Rightarrow> bool" where
  "is_digit c = (c \<in> set ''0123456789'')"

text \<open>Concrete data for the examples.\<close>

definition example_cfg :: config where
  "example_cfg =
     \<lparr>application_id = ''app'', redirect_uri = ''http://203.0.113.7:42000/callback'',
      quote = (\<lambda>t. t), format_local_time = (\<lambda>t. Some (str_int t)),
      int_non_ascii = (\<lambda>t. None)\<rparr>"

definition gold_stock :: stock_info where
  "gold_stock =
     \<lparr>status = ''active'', activated_at = 1000, active_till = 5000, level = 3,
      bonus_values = [\<lparr>bonus_value = IntNumber 2, battle_type = ''random''\<rparr>]\<rparr>"

definition gold :: reserve where
  "gold = \<lparr>name = ''Gold'', in_stock = [gold_stock]\<rparr>"

definition example_env :: env where
  "example_env =
     \<lparr>now_expiry_check = 2000000, now_token_check = 2000000, now_refresh = 2000000,
      now_cleanup = 2000000, now_callback = 2000000,
      prolongate = (\<lambda>_. RefreshJson (Some ''error'') None),
      clanreserves = (\<lambda>_. SnapshotJson 200 (Some [gold])),
      write_ok = (\<lambda>_. True),
      dm_outcome = (\<lambda>_. Delivered),
      channel_found = True, channel_send_ok = True\<rparr>"

definition idle :: reserve where
  "idle =
     \<lparr>name = ''Idle'',
      in_stock = [\<lparr>status = ''ready_to_activate'', activated_at = 0, active_till = 0,
                   level = 1, bonus_values = []\<rparr>]\<rparr>"

definition nostock :: reserve where
  "nostock = \<lparr>name = ''Empty'', in_stock = []\<rparr>"


text \<open>A bot that holds the given ids and nothing else.\<close>

definition reserves_state :: "string set \<Rightarrow> state" where
  "reserves_state ids =
     \<lparr>access_token = None, refresh_token = None, expires_at = None,
      last_active_reserves = ids, trace = []\<rparr>"











text \<open>The contents that a trace sets out to write to the reserve-state file, in order.\<close>

fun reserve_writes :: "event list \<Rightarrow> string set list" where
  "reserve_writes [] = []"
| "reserve_writes (WriteReserves ids # es) = ids # reserve_writes es"
| "reserve_writes (_ # es) = reserve_writes es"







section \<open>Properties of the primitives\<close>

lemma str_int_1000: "str_int 1000 = ''1000''"
  by (simp add: str_int_def str_nat.simps digit_char_def)

lemma gold_id: "reserve_id ''Gold'' 1000 = ''Gold_1000''"
  by (simp add: reserve_id_def str_int_1000)


lemma digit_char_is_digit: "d < 10 \<Longrightarrow> is_digit (digit_char d)"
  unfolding is_digit_def digit_char_def
  by (simp only: set_conv_nth) (auto intro!: exI [of _ d])

lemma digit_val_digit_char: "d < 10 \<Longrightarrow> digit_val (digit_char d) = Some d"
proof -
  assume "d < 10"
  then have "d \<in> {0, 1, 2, 3, 4, 5, 6, 7, 8, 9}" by auto
  then show ?thesis
    by (auto simp: digit_val_def digit_char_def)
qed

lemma is_digit_val: "is_digit c \<Longrightarrow> digit_val c \<noteq> None"
  by (auto simp: is_digit_def digit_val_def)

lemma is_digit_not_special:
  "is_digit c \<Longrightarrow> c \<noteq> CHR ''_'' \<and> c \<noteq> CHR ''-'' \<and> c \<noteq> CHR ''+'' \<and> \<not> is_space c"
  by (auto simp: is_digit_def is_space_def)

lemma is_digit_ascii: "is_digit c \<Longrightarrow> is_ascii c"
  by (auto simp: is_digit_def is_ascii_def)

lemma str_nat_digits: "\<forall>c \<in> set (str_nat n). is_digit c"
proof (induction n rule: str_nat.induct)
  case (1 n)
  show ?case
  proof (cases "n < 10")
    case True
    then show ?thesis by (simp add: str_nat.simps [of n] digit_char_is_digit)
  next
    case False
    then show ?thesis
      using 1 by (simp add: str_nat.simps [of n] digit_char_is_digit)
  qed
qed

lemma str_nat_nonempty: "str_nat n \<noteq> []"
  by (simp add: str_nat.simps [of n])

lemma parse_digits_snoc:
  "\<forall>c \<in> set xs. is_digit c \<Longrightarrow> d < 10 \<Longrightarrow>
   parse_digits (xs @ [digit_char d]) acc =
     map_option (\<lambda>v. 10 * v + d) (parse_digits xs acc)"
proof (induction xs arbitrary: acc)
  case Nil
  then show ?case
    using is_digit_not_special [OF digit_char_is_digit [of d]]
    by (simp add: digit_val_digit_char)
next
  case (Cons c cs)
  from Cons.prems have c: "is_digit c" by simp
  then obtain v where v: "digit_val c = Some v"
    using is_digit_val by blast
  from c have nu: "c \<noteq> CHR ''_''" using is_digit_not_special by blast
  from Cons.prems have "\<forall>c \<in> set cs. is_digit c" by simp
  from Cons.IH [OF this Cons.prems(2)] show ?case
    using v nu by simp
qed

lemma parse_digits_str_nat: "parse_digits (str_nat n) 0 = Some n"
proof (induction n rule: str_nat.induct)
  case (1 n)
  show ?case
  proof (cases "n < 10")
    case True
    then show ?thesis
      using is_digit_not_special [OF digit_char_is_digit [of n]]
      by (simp add: str_nat.simps [of n] digit_val_digit_char)
  next
    case False
    then have ih: "parse_digits (str_nat (n div 10)) 0 = Some (n div 10)"
      using 1 by simp
    have "parse_digits (str_nat (n div 10) @ [digit_char (n mod 10)]) 0 =
      map_option (\<lambda>v. 10 * v + n mod 10) (parse_digits (str_nat (n div 10)) 0)"
      by (rule parse_digits_snoc) (simp_all add: str_nat_digits)
    then show ?thesis
      using False ih by (simp add: str_nat.simps [of n])
  qed
qed

lemma parse_nat_str_nat: "parse_nat (str_nat n) = Some n"
proof -
  obtain c cs where cs: "str_nat n = c # cs"
    using str_nat_nonempty [of n] by (cases "str_nat n") auto
  then have "is_digit c" using str_nat_digits [of n] by simp
  then have "digit_val c \<noteq> None" by (rule is_digit_val)
  then show ?thesis
    using cs parse_digits_str_nat [of n] by (simp add: parse_nat_def)
qed

lemma strip_no_space: "\<forall>c \<in> set t. \<not> is_space c \<Longrightarrow> strip t = t"
proof -
  assume ns: "\<forall>c \<in> set t. \<not> is_space c"
  have a: "dropWhile is_space t = t"
    using ns by (cases t) auto
  have b: "dropWhile is_space (rev t) = rev t"
    using ns by (cases "rev t") (auto dest: arg_cong [where f = set])
  show ?thesis by (simp add: strip_def a b)
qed

lemma str_int_chars:
  "\<forall>c \<in> set (str_int i). c \<noteq> CHR ''_'' \<and> \<not> is_space c"
  using str_nat_digits is_digit_not_special
  by (auto simp: str_int_def is_space_def)

lemma str_int_ascii: "list_all is_ascii (str_int i)"
  using str_nat_digits is_digit_ascii
  by (auto simp: str_int_def list_all_iff is_ascii_def)

lemma int_ascii_str_int: "int_ascii (str_int i) = Some i"
proof (cases "i < 0")
  case True
  have "strip (str_int i) = str_int i"
    using str_int_chars by (intro strip_no_space) blast
  then show ?thesis
    using True by (simp add: int_ascii_def str_int_def parse_nat_str_nat)
next
  case False
  obtain c cs where cs: "str_nat (nat i) = c # cs"
    using str_nat_nonempty [of "nat i"] by (cases "str_nat (nat i)") auto
  then have "is_digit c" using str_nat_digits [of "nat i"] by simp
  then have c: "c \<noteq> CHR ''-''" "c \<noteq> CHR ''+''"
    using is_digit_not_special by blast+
  have "strip (str_int i) = str_int i"
    using str_int_chars by (intro strip_no_space) blast
  then show ?thesis
    using False c cs parse_nat_str_nat [of "nat i"]
    by (simp add: int_ascii_def str_int_def)
qed

lemma py_int_str_int: "py_int non_ascii (str_int i) = Some i"
  by (simp add: py_int_def str_int_ascii int_ascii_str_int)

lemmas py_int_eval =
  py_int_def is_ascii_def int_ascii_def strip_def is_space_def parse_nat_def digit_val_def

lemma split_sep_nonempty: "split_sep sep t \<noteq> []"
  by (induction t) (auto split: list.splits)

lemma split_sep_no_sep: "sep \<notin> set t \<Longrightarrow> split_sep sep t = [t]"
  by (induction t) auto

lemma split_sep_first:
  "sep \<notin> set a \<Longrightarrow> split_sep sep (a @ sep # rest) = a # split_sep sep rest"
  by (induction a) auto

lemma split_sep_hd: "hd (split_sep sep t) = takeWhile (\<lambda>c. c \<noteq> sep) t"
  using split_sep_nonempty [of sep]
  by (induction t) (auto split: list.splits)

lemma id_timestamp_plain:
  assumes "CHR ''_'' \<notin> set nm"
  shows "id_timestamp cfg (reserve_id nm t) = Inr t"
proof -
  have "CHR ''_'' \<notin> set (str_int t)" using str_int_chars by blast
  then have "split_sep CHR ''_'' (reserve_id nm t) = [nm, str_int t]"
    using assms by (simp add: reserve_id_def split_sep_first split_sep_no_sep)
  then show ?thesis by (simp add: id_timestamp_def py_int_str_int)
qed

lemma id_timestamp_underscore:
  assumes "CHR ''_'' \<notin> set a"
  shows "id_timestamp cfg (reserve_id (a @ ''_'' @ b) t) =
    (case py_int (int_non_ascii cfg) (takeWhile (\<lambda>c. c \<noteq> CHR ''_'') b) of
       None \<Rightarrow> Inl ValueError | Some n \<Rightarrow> Inr n)"
proof -
  let ?rest = "b @ CHR ''_'' # str_int t"
  have sp: "split_sep CHR ''_'' (reserve_id (a @ ''_'' @ b) t) = a # split_sep CHR ''_'' ?rest"
    using assms split_sep_first [of "CHR ''_''" a ?rest] by (simp add: reserve_id_def)
  obtain w ws where w: "split_sep CHR ''_'' ?rest = w # ws"
    using split_sep_nonempty [of "CHR ''_''" ?rest] by (cases "split_sep CHR ''_'' ?rest") auto
  have "w = takeWhile (\<lambda>c. c \<noteq> CHR ''_'') ?rest"
    using split_sep_hd [of "CHR ''_''" ?rest] w by simp
  also have "\<dots> = takeWhile (\<lambda>c. c \<noteq> CHR ''_'') b"
    by (induction b) auto
  finally show ?thesis
    using sp w by (simp add: id_timestamp_def)
qed


section \<open>The reserve diff\<close>

lemma scan_reserves_acc:
  assumes "\<forall>r \<in> set rs. in_stock r \<noteq> []"
    and "\<forall>r \<in> set rs. is_new prev r \<longrightarrow>
           format_local_time cfg (active_till (hd (in_stock r))) = Some (till r)"
  shows "scan_reserves cfg prev rs (cur, new) =
     Inr (cur \<union> entry_id ` {r \<in> set rs. entry_status r = ''active''},
          new @ map (entry_text till) (filter (is_new prev) rs))"
  using assms
proof (induction rs arbitrary: cur new)
  case Nil
  show ?case by simp
next
  case (Cons r rs)
  from Cons.prems obtain si sis where si: "in_stock r = si # sis"
    by (cases "in_stock r") auto
  from Cons.prems have rest: "\<forall>r \<in> set rs. in_stock r \<noteq> []"
    "\<forall>r \<in> set rs. is_new prev r \<longrightarrow>
       format_local_time cfg (active_till (hd (in_stock r))) = Some (till r)"
    by simp_all
  note ih = Cons.IH [OF rest]
  show ?case
  proof (cases "status si = ''active''")
    case True
    have st: "entry_status r = ''active''"
      using True si by (simp add: entry_status_def)
    have img: "entry_id ` {x \<in> set (r # rs). entry_status x = ''active''} =
      insert (entry_id r) (entry_id ` {x \<in> set rs. entry_status x = ''active''})"
      using st by auto
    show ?thesis
    proof (cases "entry_id r \<in> prev")
      case known: True
      have step: "scan_reserves cfg prev (r # rs) (cur, new) =
        scan_reserves cfg prev rs (insert (entry_id r) cur, new)"
        using True si known by (simp add: Let_def entry_id_def)
      show ?thesis
        unfolding step ih img
        using st known by (simp add: is_new_def [of prev r])
    next
      case fresh: False
      then have "is_new prev r" using st by (simp add: is_new_def)
      with Cons.prems(2) have "format_local_time cfg (active_till (hd (in_stock r))) = Some (till r)"
        by simp
      then have fmt: "format_local_time cfg (active_till si) = Some (till r)"
        using si by simp
      have step: "scan_reserves cfg prev (r # rs) (cur, new) =
        scan_reserves cfg prev rs (insert (entry_id r) cur, new @ [entry_text till r])"
        using True si fresh fmt by (simp add: Let_def entry_id_def entry_text_def)
      show ?thesis
        unfolding step ih img
        using st fresh by (simp add: is_new_def [of prev r])
    qed
  next
    case False
    have st: "entry_status r \<noteq> ''active''"
      using False si by (simp add: entry_status_def)
    have img: "entry_id ` {x \<in> set (r # rs). entry_status x = ''active''} =
      entry_id ` {x \<in> set rs. entry_status x = ''active''}"
      using st by auto
    have step: "scan_reserves cfg prev (r # rs) (cur, new) =
      scan_reserves cfg prev rs (cur, new)"
      using False si by simp
    show ?thesis
      unfolding step ih img
      using st by (simp add: is_new_def [of prev r])
  qed
qed

lemma scan_reserves_Inr:
  "scan_reserves cfg prev rs (cur, new) = Inr (cur', new') \<Longrightarrow>
   (\<forall>r \<in> set rs. in_stock r \<noteq> []) \<and>
   cur' = cur \<union> entry_id ` {r \<in> set rs. entry_status r = ''active''}"
proof (induction rs arbitrary: cur new)
  case Nil
  then show ?case by simp
next
  case (Cons r rs)
  show ?case
  proof (cases "in_stock r")
    case Nil
    with Cons.prems show ?thesis by simp
  next
    case si: (Cons si sis)
    show ?thesis
    proof (cases "status si = ''active''")
      case False
      then have st: "entry_status r \<noteq> ''active''"
        using si by (simp add: entry_status_def)
      have img: "entry_id ` {x \<in> set (r # rs). entry_status x = ''active''} =
        entry_id ` {x \<in> set rs. entry_status x = ''active''}"
        using st by auto
      from Cons.prems False si
      have "scan_reserves cfg prev rs (cur, new) = Inr (cur', new')" by simp
      from Cons.IH [OF this] show ?thesis
        unfolding img using si by simp
    next
      case True
      then have st: "entry_status r = ''active''"
        using si by (simp add: entry_status_def)
      have img: "entry_id ` {x \<in> set (r # rs). entry_status x = ''active''} =
        insert (entry_id r) (entry_id ` {x \<in> set rs. entry_status x = ''active''})"
        using st by auto
      from Cons.prems True si
      obtain new1 where
        "scan_reserves cfg prev rs (insert (entry_id r) cur, new1) = Inr (cur', new')"
        by (auto simp: Let_def entry_id_def split: if_splits option.splits)
      from Cons.IH [OF this] show ?thesis
        unfolding img using si by simp
    qed
  qed
qed

text \<open>
  C1, as amended. For every previous state and every snapshot in which each entry has a
  first stock element and the \<open>active_till\<close> of each active entry that is not in the
  previous state can be rendered, the loop of the poll cycle returns as
  \<open>current_active\<close> exactly the set of ids of the entries with status \<open>active\<close>, and as
  \<open>newly_activated\<close> the texts of exactly the active entries whose id is not in the
  previous state, in snapshot order. With no active entry both are empty.
\<close>

theorem diff_correct:
  assumes "\<forall>r \<in> set snapshot. in_stock r \<noteq> []"
    and "\<forall>r \<in> set snapshot. is_new prev r \<longrightarrow>
           format_local_time cfg (active_till (hd (in_stock r))) = Some (till r)"
  shows "scan_reserves cfg prev snapshot ({}, []) =
           Inr (entry_id ` {r \<in> set snapshot. entry_status r = ''active''},
                map (entry_text till) (filter (is_new prev) snapshot))
         \<and> ((\<forall>r \<in> set snapshot. entry_status r \<noteq> ''active'') \<longrightarrow>
              scan_reserves cfg prev snapshot ({}, []) = Inr ({}, []))"
proof -
  have eq: "scan_reserves cfg prev snapshot ({}, []) =
           Inr (entry_id ` {r \<in> set snapshot. entry_status r = ''active''},
                map (entry_text till) (filter (is_new prev) snapshot))"
    using scan_reserves_acc [OF assms, of "{}" "[]"] by simp
  moreover have "(\<forall>r \<in> set snapshot. entry_status r \<noteq> ''active'') \<longrightarrow>
              scan_reserves cfg prev snapshot ({}, []) = Inr ({}, [])"
  proof
    assume none: "\<forall>r \<in> set snapshot. entry_status r \<noteq> ''active''"
    then have "{r \<in> set snapshot. entry_status r = ''active''} = {}" by blast
    moreover from none have "filter (is_new prev) snapshot = []"
      by (simp add: is_new_def filter_empty_conv)
    ultimately show "scan_reserves cfg prev snapshot ({}, []) = Inr ({}, [])"
      using eq by simp
  qed
  ultimately show ?thesis by blast
qed

lemma example_scan:
  "scan_reserves example_cfg {} [gold] ({}, []) =
     Inr ({''Gold_1000''}, [reserve_info ''Gold'' gold_stock ''5000''])"
  by (simp add: gold_def gold_stock_def gold_id example_cfg_def
      str_int_def str_nat.simps digit_char_def)

theorem diff_correct_witness:
  "in_stock gold \<noteq> [] \<and>
   format_local_time example_cfg (active_till (hd (in_stock gold))) = Some ''5000'' \<and>
   scan_reserves example_cfg {} [gold] ({}, []) =
     Inr ({''Gold_1000''}, [reserve_info ''Gold'' gold_stock ''5000''])"
proof -
  have f: "format_local_time example_cfg (active_till (hd (in_stock gold))) = Some ''5000''"
    by (simp add: gold_def gold_stock_def example_cfg_def str_int_def str_nat.simps
        digit_char_def)
  show ?thesis
    using diff_correct [of "[gold]" "{}" example_cfg "\<lambda>_. ''5000''"] f
    by (simp add: gold_def gold_stock_def entry_status_def entry_id_def entry_text_def
        is_new_def gold_id)
qed

text \<open>
  The claim C1 as stated fails on a snapshot with no active entry in which one entry has
  an empty \<open>in_stock\<close> list: the loop raises IndexError instead of returning two empty
  results.
\<close>

theorem diff_empty_stock_counterexample:
  "status (hd (in_stock idle)) \<noteq> ''active'' \<and> in_stock nostock = [] \<and>
   scan_reserves example_cfg {} [idle, nostock] ({}, []) = Inl IndexError"
  by (simp add: idle_def nostock_def)

text \<open>
  C9. If the loop run on a snapshot with previous state \<open>S\<close> returns the set
  \<open>current_active\<close>, then the loop run on the same snapshot with that set as previous
  state returns it again, with nothing newly activated.
\<close>

theorem diff_idempotent:
  assumes "scan_reserves cfg prev snapshot ({}, []) = Inr (current_active, newly_activated)"
  shows "scan_reserves cfg current_active snapshot ({}, []) = Inr (current_active, [])"
proof -
  from scan_reserves_Inr [OF assms]
  have wf: "\<forall>r \<in> set snapshot. in_stock r \<noteq> []"
    and cur: "current_active = entry_id ` {r \<in> set snapshot. entry_status r = ''active''}"
    by simp_all
  have none: "\<forall>r \<in> set snapshot. \<not> is_new current_active r"
    unfolding is_new_def cur by blast
  then have "filter (is_new current_active) snapshot = []"
    by (simp add: filter_empty_conv)
  moreover have "\<forall>r \<in> set snapshot. is_new current_active r \<longrightarrow>
      format_local_time cfg (active_till (hd (in_stock r))) = Some ((\<lambda>_. []) r)"
    using none by blast
  ultimately show ?thesis
    using scan_reserves_acc [OF wf, of current_active cfg "\<lambda>_. []" "{}" "[]"] cur by simp
qed

theorem diff_idempotent_witness:
  "scan_reserves example_cfg {} [gold] ({}, []) =
     Inr ({''Gold_1000''}, [reserve_info ''Gold'' gold_stock ''5000'']) \<and>
   scan_reserves example_cfg {''Gold_1000''} [gold] ({}, []) = Inr ({''Gold_1000''}, [])"
proof -
  from diff_idempotent [OF example_scan] example_scan show ?thesis by simp
qed


section \<open>The cleanup of expired ids\<close>

lemma cleanup_raises:
  "rid \<in> last_active_reserves s \<Longrightarrow> isl (id_timestamp cfg rid) \<Longrightarrow>
   cleanup_expired_reserves cfg e s now = (Raised, s)"
  unfolding cleanup_expired_reserves_def by auto

lemma cleanup_returns:
  assumes "\<forall>rid \<in> last_active_reserves s. \<not> isl (id_timestamp cfg rid)"
  shows "fst (cleanup_expired_reserves cfg e s now) = Returned"
    and "last_active_reserves (snd (cleanup_expired_reserves cfg e s now)) =
         last_active_reserves s - Set.filter (id_expired cfg now) (last_active_reserves s)"
  using assms
  by (auto simp: cleanup_expired_reserves_def Let_def emit_def save_reserves_state_def)

lemma id_expired_plain:
  "CHR ''_'' \<notin> set nm \<Longrightarrow> id_expired cfg now (reserve_id nm t) = (t < now - 7200)"
  by (simp add: id_expired_def id_timestamp_plain)

text \<open>
  C2, as amended. For every state whose ids are of the form name, underscore,
  \<open>activated_at\<close> with no underscore in the name, and every time \<open>now\<close>, the cleanup
  returns and removes from the state exactly the ids with \<open>activated_at < now - 7200\<close>;
  every other id is retained.
\<close>

theorem cleanup_strict:
  assumes "\<forall>rid \<in> last_active_reserves s. \<exists>nm t. rid = reserve_id nm t \<and> CHR ''_'' \<notin> set nm"
  shows "fst (cleanup_expired_reserves cfg e s now) = Returned \<and>
         last_active_reserves (snd (cleanup_expired_reserves cfg e s now)) =
           last_active_reserves s -
             {reserve_id nm t | nm t. CHR ''_'' \<notin> set nm \<and> t < now - 7200}"
proof -
  have ok: "\<forall>rid \<in> last_active_reserves s. \<not> isl (id_timestamp cfg rid)"
    using assms by (auto simp: id_timestamp_plain)
  have "Set.filter (id_expired cfg now) (last_active_reserves s) =
        last_active_reserves s \<inter> {reserve_id nm t | nm t. CHR ''_'' \<notin> set nm \<and> t < now - 7200}"
  proof (rule set_eqI)
    fix rid
    show "rid \<in> Set.filter (id_expired cfg now) (last_active_reserves s) \<longleftrightarrow>
          rid \<in> last_active_reserves s \<inter>
            {reserve_id nm t | nm t. CHR ''_'' \<notin> set nm \<and> t < now - 7200}"
    proof (cases "rid \<in> last_active_reserves s")
      case False
      then show ?thesis by simp
    next
      case True
      then obtain nm t where rid: "rid = reserve_id nm t" and nm: "CHR ''_'' \<notin> set nm"
        using assms by blast
      have "id_expired cfg now rid = (t < now - 7200)"
        using rid nm by (simp add: id_expired_plain)
      moreover have "rid \<in> {reserve_id nm t | nm t. CHR ''_'' \<notin> set nm \<and> t < now - 7200}
                     \<longleftrightarrow> t < now - 7200"
      proof
        assume "rid \<in> {reserve_id nm t | nm t. CHR ''_'' \<notin> set nm \<and> t < now - 7200}"
        then obtain nm' t' where r': "rid = reserve_id nm' t'" "CHR ''_'' \<notin> set nm'"
          "t' < now - 7200" by blast
        have "id_timestamp cfg rid = Inr t'" using r' by (simp add: id_timestamp_plain)
        moreover have "id_timestamp cfg rid = Inr t" using rid nm by (simp add: id_timestamp_plain)
        ultimately have "t' = t" by simp
        with r' show "t < now - 7200" by simp
      next
        assume "t < now - 7200"
        with rid nm show "rid \<in> {reserve_id nm t | nm t. CHR ''_'' \<notin> set nm \<and> t < now - 7200}"
          by blast
      qed
      ultimately show ?thesis using True by simp
    qed
  qed
  then show ?thesis
    using cleanup_returns [OF ok, where now = now and e = e] by auto
qed

lemma gold_timestamp: "id_timestamp cfg ''Gold_1000'' = Inr 1000"
  by (simp add: id_timestamp_def py_int_eval)

text \<open>
  The claim C2 as stated, with \<open>activated_at \<le> now - 7200\<close>, fails on the boundary: at
  \<open>now = 8200\<close> the id of a reserve activated at 1000 is retained.
\<close>

theorem cleanup_boundary_counterexample:
  "(1000 :: int) \<le> 8200 - 7200 \<and>
   reserve_id ''Gold'' 1000 \<in>
     last_active_reserves (snd (cleanup_expired_reserves example_cfg example_env (reserves_state {''Gold_1000''}) 8200))"
  by (simp add: gold_id cleanup_expired_reserves_def reserves_state_def gold_timestamp
        id_expired_def Let_def)

theorem cleanup_strict_witness:
  "reserve_id ''Gold'' 1000 = ''Gold_1000'' \<and> CHR ''_'' \<notin> set ''Gold'' \<and>
   fst (cleanup_expired_reserves example_cfg example_env (reserves_state {''Gold_1000''}) 8201) = Returned \<and>
   last_active_reserves (snd (cleanup_expired_reserves example_cfg example_env (reserves_state {''Gold_1000''}) 8201)) = {}"
proof -
  have h: "\<forall>rid \<in> last_active_reserves (reserves_state {''Gold_1000''}).
             \<exists>nm t. rid = reserve_id nm t \<and> CHR ''_'' \<notin> set nm"
    using gold_id by (auto simp: reserves_state_def intro!: exI [of _ "''Gold''"] exI [of _ 1000])
  have "''Gold_1000'' \<in> {reserve_id nm t | nm t. CHR ''_'' \<notin> set nm \<and> t < 8201 - 7200}"
    using gold_id by (auto intro!: exI [of _ "''Gold''"] exI [of _ 1000])
  then show ?thesis
    using cleanup_strict [OF h, where now = 8201 and cfg = example_cfg and e = example_env] gold_id
    by (simp add: reserves_state_def)
qed

lemma cleanup_member:
  assumes "fst (cleanup_expired_reserves cfg e s now) = Returned"
  shows "rid \<in> last_active_reserves (snd (cleanup_expired_reserves cfg e s now)) \<longleftrightarrow>
         rid \<in> last_active_reserves s \<and> \<not> id_expired cfg now rid"
proof -
  have ok: "\<forall>rid \<in> last_active_reserves s. \<not> isl (id_timestamp cfg rid)"
  proof (rule ccontr)
    assume "\<not> ?thesis"
    then obtain r where "r \<in> last_active_reserves s" "isl (id_timestamp cfg r)" by blast
    then have "cleanup_expired_reserves cfg e s now = (Raised, s)" by (rule cleanup_raises)
    with assms show False by simp
  qed
  show ?thesis
    using cleanup_returns(2) [OF ok, where now = now and e = e] by auto
qed

lemma x5_timestamp: "id_timestamp cfg ''x_5_9000'' = Inr 5"
  by (simp add: id_timestamp_def py_int_eval)

lemma x9000_timestamp: "id_timestamp cfg ''x_9000_5'' = Inr 9000"
  by (simp add: id_timestamp_def py_int_eval)

lemma x5_id: "reserve_id ''x_5'' 9000 = ''x_5_9000''"
  by (simp add: reserve_id_def str_int_def str_nat.simps digit_char_def)

lemma x9000_id: "reserve_id ''x_9000'' 5 = ''x_9000_5''"
  by (simp add: reserve_id_def str_int_def str_nat.simps digit_char_def)

lemma purged_against_rule:
  "CHR ''_'' \<in> set ''x_5'' \<and>
   reserve_id ''x_5'' 9000 \<in> last_active_reserves (reserves_state {''x_5_9000''}) \<and>
   \<not> (9000 :: int) \<le> 10000 - 7200 \<and>
   fst (cleanup_expired_reserves example_cfg example_env (reserves_state {''x_5_9000''}) 10000) = Returned \<and>
   reserve_id ''x_5'' 9000 \<notin>
     last_active_reserves (snd (cleanup_expired_reserves example_cfg example_env (reserves_state {''x_5_9000''}) 10000))"
  by (simp add: x5_id cleanup_expired_reserves_def reserves_state_def x5_timestamp
        id_expired_def Let_def emit_def save_reserves_state_def)

lemma retained_against_rule:
  "CHR ''_'' \<in> set ''x_9000'' \<and>
   reserve_id ''x_9000'' 5 \<in> last_active_reserves (reserves_state {''x_9000_5''}) \<and>
   (5 :: int) \<le> 10000 - 7200 \<and>
   fst (cleanup_expired_reserves example_cfg example_env (reserves_state {''x_9000_5''}) 10000) = Returned \<and>
   reserve_id ''x_9000'' 5 \<in>
     last_active_reserves (snd (cleanup_expired_reserves example_cfg example_env (reserves_state {''x_9000_5''}) 10000))"
  by (simp add: x9000_id cleanup_expired_reserves_def reserves_state_def x9000_timestamp
        id_expired_def Let_def)

text \<open>
  C10. The cleanup reads as timestamp the text between the first and the second
  underscore of an id. For a name without underscore that is \<open>activated_at\<close>. For a name
  with an underscore it is a piece of the name: when that piece is no integer the
  cleanup raises with the state unchanged, otherwise the id is kept or purged by the
  number read from the name, whatever \<open>activated_at\<close> is; there are ids purged although
  \<open>activated_at > now - 7200\<close> and ids kept although \<open>activated_at \<le> now - 7200\<close>.
\<close>

theorem cleanup_reads_first_segment:
  "(CHR ''_'' \<notin> set nm \<longrightarrow> id_timestamp cfg (reserve_id nm t) = Inr t) \<and>
   (CHR ''_'' \<notin> set a \<longrightarrow>
      id_timestamp cfg (reserve_id (a @ ''_'' @ b) t) =
        (case py_int (int_non_ascii cfg) (takeWhile (\<lambda>c. c \<noteq> CHR ''_'') b) of
           None \<Rightarrow> Inl ValueError | Some n \<Rightarrow> Inr n) \<and>
      (reserve_id (a @ ''_'' @ b) t \<in> last_active_reserves s \<longrightarrow>
         (py_int (int_non_ascii cfg) (takeWhile (\<lambda>c. c \<noteq> CHR ''_'') b) = None \<longrightarrow>
            cleanup_expired_reserves cfg e s now = (Raised, s)) \<and>
         (\<forall>n. py_int (int_non_ascii cfg) (takeWhile (\<lambda>c. c \<noteq> CHR ''_'') b) = Some n \<longrightarrow>
            fst (cleanup_expired_reserves cfg e s now) = Returned \<longrightarrow>
            (reserve_id (a @ ''_'' @ b) t \<in>
               last_active_reserves (snd (cleanup_expired_reserves cfg e s now))
             \<longleftrightarrow> \<not> n < now - 7200)))) \<and>
   (\<exists>cfg' e' s' now' nm' t'. CHR ''_'' \<in> set nm' \<and> reserve_id nm' t' \<in> last_active_reserves s' \<and>
      \<not> t' \<le> now' - 7200 \<and> fst (cleanup_expired_reserves cfg' e' s' now') = Returned \<and>
      reserve_id nm' t' \<notin> last_active_reserves (snd (cleanup_expired_reserves cfg' e' s' now'))) \<and>
   (\<exists>cfg' e' s' now' nm' t'. CHR ''_'' \<in> set nm' \<and> reserve_id nm' t' \<in> last_active_reserves s' \<and>
      t' \<le> now' - 7200 \<and> fst (cleanup_expired_reserves cfg' e' s' now') = Returned \<and>
      reserve_id nm' t' \<in> last_active_reserves (snd (cleanup_expired_reserves cfg' e' s' now')))"
proof (intro conjI impI allI)
  assume "CHR ''_'' \<notin> set nm"
  then show "id_timestamp cfg (reserve_id nm t) = Inr t" by (rule id_timestamp_plain)
next
  assume "CHR ''_'' \<notin> set a"
  then show "id_timestamp cfg (reserve_id (a @ ''_'' @ b) t) =
        (case py_int (int_non_ascii cfg) (takeWhile (\<lambda>c. c \<noteq> CHR ''_'') b) of
           None \<Rightarrow> Inl ValueError | Some n \<Rightarrow> Inr n)"
    by (rule id_timestamp_underscore)
next
  assume a: "CHR ''_'' \<notin> set a"
    and m: "reserve_id (a @ ''_'' @ b) t \<in> last_active_reserves s"
    and p: "py_int (int_non_ascii cfg) (takeWhile (\<lambda>c. c \<noteq> CHR ''_'') b) = None"
  have "isl (id_timestamp cfg (reserve_id (a @ ''_'' @ b) t))"
    using id_timestamp_underscore [OF a, where b = b and t = t and cfg = cfg] p by simp
  with m show "cleanup_expired_reserves cfg e s now = (Raised, s)" by (rule cleanup_raises)
next
  fix n
  assume a: "CHR ''_'' \<notin> set a"
    and m: "reserve_id (a @ ''_'' @ b) t \<in> last_active_reserves s"
    and p: "py_int (int_non_ascii cfg) (takeWhile (\<lambda>c. c \<noteq> CHR ''_'') b) = Some n"
    and r: "fst (cleanup_expired_reserves cfg e s now) = Returned"
  have "id_expired cfg now (reserve_id (a @ ''_'' @ b) t) = (n < now - 7200)"
    using id_timestamp_underscore [OF a, where b = b and t = t and cfg = cfg] p by (simp add: id_expired_def)
  then show "reserve_id (a @ ''_'' @ b) t \<in>
               last_active_reserves (snd (cleanup_expired_reserves cfg e s now))
             \<longleftrightarrow> \<not> n < now - 7200"
    using cleanup_member [OF r] m by simp
next
  show "\<exists>cfg' e' s' now' nm' t'. CHR ''_'' \<in> set nm' \<and> reserve_id nm' t' \<in> last_active_reserves s' \<and>
      \<not> t' \<le> now' - 7200 \<and> fst (cleanup_expired_reserves cfg' e' s' now') = Returned \<and>
      reserve_id nm' t' \<notin> last_active_reserves (snd (cleanup_expired_reserves cfg' e' s' now'))"
    using purged_against_rule by blast
next
  show "\<exists>cfg' e' s' now' nm' t'. CHR ''_'' \<in> set nm' \<and> reserve_id nm' t' \<in> last_active_reserves s' \<and>
      t' \<le> now' - 7200 \<and> fst (cleanup_expired_reserves cfg' e' s' now') = Returned \<and>
      reserve_id nm' t' \<in> last_active_reserves (snd (cleanup_expired_reserves cfg' e' s' now'))"
    using retained_against_rule by blast
qed

lemma battle_id: "reserve_id ''Battle_Payments'' 1000 = ''Battle_Payments_1000''"
  by (simp add: reserve_id_def str_int_1000)

theorem cleanup_reads_first_segment_witness:
  "CHR ''_'' \<notin> set ''Battle'' \<and>
   CHR ''_'' \<notin> set ''Gold'' \<and>
   id_timestamp example_cfg (reserve_id ''Gold'' 1000) = Inr 1000 \<and>
   id_timestamp example_cfg ''Battle_Payments_1000'' = Inl ValueError \<and>
   ''Battle_Payments_1000'' \<in> last_active_reserves
      (reserves_state {''Battle_Payments_1000'', ''Gold_1000''}) \<and>
   cleanup_expired_reserves example_cfg example_env
     (reserves_state {''Battle_Payments_1000'', ''Gold_1000''}) 10000 =
     (Raised, reserves_state {''Battle_Payments_1000'', ''Gold_1000''})"
proof -
  have p: "py_int (int_non_ascii example_cfg) (takeWhile (\<lambda>c. c \<noteq> CHR ''_'') ''Payments'') = None"
    by (simp add: py_int_eval)
  have m: "reserve_id (''Battle'' @ ''_'' @ ''Payments'') 1000 \<in> last_active_reserves
      (reserves_state {''Battle_Payments_1000'', ''Gold_1000''})"
    by (simp add: battle_id reserves_state_def)
  show ?thesis
    using cleanup_reads_first_segment
      [where nm = "''Gold''" and t = 1000 and a = "''Battle''" and b = "''Payments''"
         and s = "reserves_state {''Battle_Payments_1000'', ''Gold_1000''}" and now = 10000
         and cfg = example_cfg and e = example_env]
      p m
    by (simp add: battle_id reserves_state_def)
qed


section \<open>The credential\<close>

lemma emit_fields [simp]:
  "access_token (emit es s) = access_token s"
  "refresh_token (emit es s) = refresh_token s"
  "expires_at (emit es s) = expires_at s"
  "last_active_reserves (emit es s) = last_active_reserves s"
  "trace (emit es s) = trace s @ es"
  by (simp_all add: emit_def)







lemma save_tokens_fields [simp]:
  "access_token (save_tokens e s) = access_token s"
  "refresh_token (save_tokens e s) = refresh_token s"
  "expires_at (save_tokens e s) = expires_at s"
  "last_active_reserves (save_tokens e s) = last_active_reserves s"
  by (simp_all add: save_tokens_def Let_def)














section \<open>What the steps of the cycle leave alone\<close>

lemma reserve_writes_append [simp]:
  "reserve_writes (xs @ ys) = reserve_writes xs @ reserve_writes ys"
  by (induction xs rule: reserve_writes.induct) simp_all


lemma send_admin_message_frame [simp]:
  "access_token (send_admin_message e m s) = access_token s"
  "refresh_token (send_admin_message e m s) = refresh_token s"
  "expires_at (send_admin_message e m s) = expires_at s"
  "last_active_reserves (send_admin_message e m s) = last_active_reserves s"
  "reserve_writes (trace (send_admin_message e m s)) = reserve_writes (trace s)"
  by (simp_all add: send_admin_message_def split: dm_result.splits)



lemma start_oauth_flow_eq:
  "start_oauth_flow cfg s = (full_auth_url cfg, emit [Log (AuthorizeUrl (full_auth_url cfg))] s)"
  by (simp add: start_oauth_flow_def)

lemma expiry_warning_frame [simp]:
  "access_token (expiry_warning cfg e s) = access_token s"
  "refresh_token (expiry_warning cfg e s) = refresh_token s"
  "expires_at (expiry_warning cfg e s) = expires_at s"
  "last_active_reserves (expiry_warning cfg e s) = last_active_reserves s"
  "reserve_writes (trace (expiry_warning cfg e s)) = reserve_writes (trace s)"
  by (simp_all add: expiry_warning_def start_oauth_flow_eq Let_def split: option.splits)





lemma token_fresh_reserves_update [simp]:
  "token_fresh e (s\<lparr>last_active_reserves := X\<rparr>) = token_fresh e s"
  by (simp add: token_fresh_def)





section \<open>A cycle without token\<close>






section \<open>The poll cycle with a token\<close>










lemma announce_frame [simp]:
  "last_active_reserves (snd (announce e new s)) = last_active_reserves s"
  "reserve_writes (trace (snd (announce e new s))) = reserve_writes (trace s)"
  by (simp_all add: announce_def)










section \<open>Examples of cycles\<close>







section \<open>Failures of a cycle\<close>





section \<open>The callback handler\<close>









end
